theory Spec2Isabelle
  imports Main "HOL-Library.Sublist" "HOL-Library.Multiset"
    "HOL-Library.Char_ord" "HOL-Library.List_Lexorder"
begin

section \<open>Content trees\<close>

text \<open>
  An \<open>xml.etree.ElementTree.Element\<close>: tag, attribute dictionary, text, children and
  tail.  Python strings are kept as lists of characters; \<open>None\<close> and the empty string
  are both the empty list, since every use in the program (\<open>if t:\<close>) treats them alike.
  The first field is the identity of the Python object (\<open>id(elem)\<close>): two elements with
  equal content are still two objects, and the claims about pages that are shared or
  duplicated are about objects.
\<close>

datatype elem =
  Elem (ident: nat) (tag: string) (attrib: "(string \<times> string) list")
       (text_of: string) (children: "elem list") (tail: string)

text \<open>
  \<open>Element.itertext()\<close>: the element's own text when it is non-empty, then for every
  child its \<open>itertext()\<close> followed by its tail when that is non-empty.  The tail of the
  element itself is not part of it.
\<close>

fun itertext :: "elem \<Rightarrow> string list" where
  "itertext (Elem i tg at tx ch ta) =
     (if tx \<noteq> [] then [tx] else []) @
     concat (map (\<lambda>e. itertext e @ (if tail e \<noteq> [] then [tail e] else [])) ch)"

text \<open>\<open>''.join(page.itertext())\<close>\<close>

definition page_text :: "elem \<Rightarrow> string" where
  "page_text page = concat (itertext page)"

text \<open>
  \<open>template in page_text\<close> on Python strings is containment as a contiguous substring,
  which is \<^const>\<open>sublist\<close>.
\<close>

definition has_template :: "string \<Rightarrow> elem \<Rightarrow> bool" where
  "has_template template page = sublist template (page_text page)"

text \<open>
  \<open>pages[skip_pages:]\<close> for a Python integer: a negative start counts from the end of
  the list, and a start beyond either end is clamped.
\<close>

definition slice_from :: "int \<Rightarrow> 'a list \<Rightarrow> 'a list" where
  "slice_from k xs =
     (if k < 0 then drop (nat (int (length xs) + k)) xs else drop (nat k) xs)"

section \<open>Segmentation\<close>

text \<open>
  The \<open>for page in pages\<close> loop of \<open>split_by_template\<close>, with the two variables it
  updates, \<open>sections\<close> and \<open>current_section\<close>, passed along.
\<close>

fun split_loop ::
  "string \<Rightarrow> elem list \<Rightarrow> elem list list \<Rightarrow> elem list \<Rightarrow> elem list list \<times> elem list"
where
  "split_loop template [] sections current_section = (sections, current_section)"
| "split_loop template (page # pages) sections current_section =
     (if has_template template page then
        split_loop template pages
          (if current_section \<noteq> [] then sections @ [current_section] else sections)
          [page]
      else
        split_loop template pages sections
          (if current_section \<noteq> [] then current_section @ [page] else current_section))"

definition split_by_template :: "elem \<Rightarrow> string \<Rightarrow> int \<Rightarrow> elem list list" where
  "split_by_template root template skip_pages =
     (let pages = children root;
          pages = slice_from skip_pages pages;
          (sections, current_section) = split_loop template pages [] []
      in if current_section \<noteq> [] then sections @ [current_section] else sections)"

section \<open>Object identity and deep copies\<close>

text \<open>The identities of all nodes of a tree, the node itself first.\<close>

fun node_ids :: "elem \<Rightarrow> nat list" where
  "node_ids (Elem i tg at tx ch ta) = i # concat (map node_ids ch)"

text \<open>The content of a tree with the identities of its nodes erased.\<close>

fun content_of :: "elem \<Rightarrow> elem" where
  "content_of (Elem i tg at tx ch ta) = Elem 0 tg at tx (map content_of ch) ta"

text \<open>
  \<open>copy.deepcopy\<close> of an element and of a list of elements.  Every node of the copy is a
  new object: the first argument is the next identity that no object has yet, and the
  result carries the next one after the copy.  Tag, attributes, text and tail are
  immutable values and are kept.
\<close>

fun deepcopy :: "nat \<Rightarrow> elem \<Rightarrow> elem \<times> nat"
  and deepcopy_list :: "nat \<Rightarrow> elem list \<Rightarrow> elem list \<times> nat"
where
  "deepcopy n (Elem i tg at tx ch ta) =
     (case deepcopy_list (Suc n) ch of (ch', n') \<Rightarrow> (Elem n tg at tx ch' ta, n'))"
| "deepcopy_list n [] = ([], n)"
| "deepcopy_list n (e # es) =
     (case deepcopy n e of (e', n1) \<Rightarrow>
        case deepcopy_list n1 es of (es', n2) \<Rightarrow> (e' # es', n2))"

text \<open>
  \<open>create_section_tree\<close>: a new root with the tag and the attributes of the original
  root, and a deep copy of every page of the section appended in order.
\<close>

definition create_section_tree :: "nat \<Rightarrow> elem \<Rightarrow> elem list \<Rightarrow> elem \<times> nat" where
  "create_section_tree n root section_pages =
     (case deepcopy_list (Suc n) section_pages of
        (pages, n') \<Rightarrow> (Elem n (tag root) (attrib root) [] pages [], n'))"

section \<open>Exceptions and the libraries\<close>

text \<open>A raised Python exception: the name of its class and \<open>str(e)\<close>.\<close>

datatype exn = Exn (cls: string) (msg: string)

text \<open>
  The parts of the Python libraries that the program calls and that are not code of the
  repository are parameters of the model: the compression codecs behind \<open>zipfile\<close>
  (\<open>supported\<close> says whether a compression method other than "stored" is available,
  \<open>decompress\<close> fails on corrupt data), the checksum \<open>zlib.crc32\<close>, the XML parser
  behind \<open>ET.parse\<close>, and the
  serialiser \<open>ET.tostring(root, encoding="utf-8", method="xml")\<close>, which returns the
  element's serialisation without an XML declaration.
\<close>

record lib =
  supported :: "int \<Rightarrow> bool"
  compress :: "int \<Rightarrow> string \<Rightarrow> string"
  decompress :: "int \<Rightarrow> string \<Rightarrow> exn + string"
  crc32 :: "string \<Rightarrow> int"
  XMLParser :: "string \<Rightarrow> exn + elem"
  tostring :: "elem \<Rightarrow> string"

section \<open>Archives\<close>

text \<open>
  A \<open>zipfile.ZipInfo\<close> with the fields that describe a member (Python integers are
  integers here); the sizes and the header offset say where the stored bytes are and are
  left out.  A member of an archive is its \<open>ZipInfo\<close> and the bytes stored for it
  (compressed as \<open>compress_type\<close> says); an archive is the list of its members in the
  order of the central directory.  The archives of the model are those whose local
  headers agree with the central directory and whose sizes are those of the stored bytes
  and of the content.
\<close>

record zipinfo =
  filename :: string
  date_time :: "int list"
  compress_type :: int
  comment :: string
  extra :: string
  external_attr :: int
  flag_bits :: int
  CRC :: int

type_synonym member = "zipinfo \<times> string"
type_synonym archive = "member list"

definition ZIP_STORED :: int where "ZIP_STORED = 0"
definition ZIP_DEFLATED :: int where "ZIP_DEFLATED = 8"
definition ZIP_LZMA :: int where "ZIP_LZMA = 14"

definition infolist :: "archive \<Rightarrow> zipinfo list" where
  "infolist z = map fst z"

definition namelist :: "archive \<Rightarrow> string list" where
  "namelist z = map (\<lambda>m. filename (fst m)) z"

text \<open>
  \<open>ZipFile.getinfo(name)\<close> looks the name up in \<open>NameToInfo\<close>, which is filled in the
  order of the archive: of several members with one name the last is found.
\<close>

definition getinfo :: "archive \<Rightarrow> string \<Rightarrow> member option" where
  "getinfo z name =
     (case filter (\<lambda>m. filename (fst m) = name) z of
        [] \<Rightarrow> None
      | m # ms \<Rightarrow> Some (last (m # ms)))"

text \<open>
  Stored members are kept as they are; any other method goes through its codec, and a
  method without codec raises \<open>NotImplementedError\<close> on reading as on writing.
\<close>

definition unsupported :: exn where
  "unsupported = Exn ''NotImplementedError'' ''That compression method is not supported''"

definition zip_decompress :: "lib \<Rightarrow> int \<Rightarrow> string \<Rightarrow> exn + string" where
  "zip_decompress L ct data =
     (if ct = ZIP_STORED then Inr data
      else if supported L ct then decompress L ct data
      else Inl unsupported)"

definition zip_compress :: "lib \<Rightarrow> int \<Rightarrow> string \<Rightarrow> exn + string" where
  "zip_compress L ct data =
     (if ct = ZIP_STORED then Inr data
      else if supported L ct then Inr (compress L ct data)
      else Inl unsupported)"

text \<open>\<open>flags & (1 << k)\<close> is not zero.\<close>

definition flag_set :: "int \<Rightarrow> nat \<Rightarrow> bool" where
  "flag_set flags k = ((flags div 2 ^ k) mod 2 = 1)"

text \<open>
  \<open>ZipFile.read(name)\<close>: the decompressed content of the member found under the name.
  When the archive file has been opened for writing in the meantime (\<open>truncated\<close>), the
  member's header is no longer where the directory says and the read fails.  Otherwise
  \<open>ZipFile.open\<close> refuses compressed patched data (flag bit 5), strong encryption (flag
  bit 6) and, as no password is given, an encrypted member (flag bit 0); then the member
  is decompressed, and the checksum of what has been read is compared with the member's
  when its end is reached.
\<close>

definition read_member :: "lib \<Rightarrow> member \<Rightarrow> exn + string" where
  "read_member L m =
     (if flag_set (flag_bits (fst m)) 5 then
        Inl (Exn ''NotImplementedError'' ''compressed patched data (flag bit 5)'')
      else if flag_set (flag_bits (fst m)) 6 then
        Inl (Exn ''NotImplementedError'' ''strong encryption (flag bit 6)'')
      else if flag_set (flag_bits (fst m)) 0 then
        Inl (Exn ''RuntimeError''
              (''File '' @ [CHR 0x27] @ filename (fst m) @ [CHR 0x27] @
               '' is encrypted, password required for extraction''))
      else
        (case zip_decompress L (compress_type (fst m)) (snd m) of
           Inl e \<Rightarrow> Inl e
         | Inr d \<Rightarrow>
             if crc32 L d = CRC (fst m) then Inr d
             else Inl (Exn ''BadZipFile''
                        (''Bad CRC-32 for file '' @ [CHR 0x27] @ filename (fst m) @
                         [CHR 0x27]))))"

definition zip_read :: "lib \<Rightarrow> bool \<Rightarrow> archive \<Rightarrow> string \<Rightarrow> exn + string" where
  "zip_read L truncated z name =
     (case getinfo z name of
        None \<Rightarrow> Inl (Exn ''KeyError'' name)
      | Some m \<Rightarrow>
          if truncated then Inl (Exn ''BadZipFile'' ''Truncated file header'')
          else read_member L m)"

text \<open>
  \<open>ZipFile.writestr(zinfo, data)\<close> with a \<open>ZipInfo\<close>: the member is appended under that
  \<open>ZipInfo\<close>, its data compressed by the method the \<open>ZipInfo\<close> names.  The library
  resets the flag bits (to 2 for the method LZMA, to 0 otherwise), and the headers it
  writes carry the flag \<open>0x800\<close> in addition when the name is not ASCII; it sets the
  checksum to that of the data and gives a member without external attributes the
  default permissions \<open>0o600 << 16\<close>.
\<close>

definition is_ascii :: "string \<Rightarrow> bool" where
  "is_ascii s = list_all (\<lambda>c. of_char c < (128::nat)) s"

definition written_flags :: "zipinfo \<Rightarrow> int" where
  "written_flags zinfo =
     (if compress_type zinfo = ZIP_LZMA then 2 else 0) +
     (if is_ascii (filename zinfo) then 0 else 2048)"

definition written_info :: "lib \<Rightarrow> zipinfo \<Rightarrow> string \<Rightarrow> zipinfo" where
  "written_info L zinfo data =
     zinfo\<lparr>flag_bits := written_flags zinfo,
           external_attr := (if external_attr zinfo = 0 then 25165824
                             else external_attr zinfo),
           CRC := crc32 L data\<rparr>"

definition writestr :: "lib \<Rightarrow> archive \<Rightarrow> zipinfo \<Rightarrow> string \<Rightarrow> exn + archive" where
  "writestr L zout zinfo data =
     (case zip_compress L (compress_type zinfo) data of
        Inl e \<Rightarrow> Inl e
      | Inr stored \<Rightarrow> Inr (zout @ [(written_info L zinfo data, stored)]))"

text \<open>\<open>b'<?xml version="1.0" encoding="utf-8"?>\n'\<close>\<close>

definition xml_declaration :: string where
  "xml_declaration =
     ''<?xml version='' @ [CHR 0x22] @ ''1.0'' @ [CHR 0x22] @ '' encoding='' @ [CHR 0x22] @
     ''utf-8'' @ [CHR 0x22] @ ''?>'' @ [CHR 0x0A]"

text \<open>
  The loop \<open>for item in zin.infolist()\<close> of \<open>create_section_hwpx\<close>, with the members
  written so far.  It returns them together with the exception that ended the loop, if
  any: the \<open>with\<close> statement closes the output archive also when an exception passes.
\<close>

fun copy_items ::
  "lib \<Rightarrow> bool \<Rightarrow> archive \<Rightarrow> elem \<Rightarrow> string \<Rightarrow> zipinfo list \<Rightarrow> archive \<Rightarrow> archive \<times> exn option"
where
  "copy_items L truncated zin section_tree xml_path [] zout = (zout, None)"
| "copy_items L truncated zin section_tree xml_path (item # items) zout =
     (if filename item = xml_path then
        (let xml_bytes = tostring L section_tree;
             xml_content = xml_declaration @ xml_bytes
         in case writestr L zout item xml_content of
              Inl e \<Rightarrow> (zout, Some e)
            | Inr zout' \<Rightarrow> copy_items L truncated zin section_tree xml_path items zout')
      else
        (case zip_read L truncated zin (filename item) of
           Inl e \<Rightarrow> (zout, Some e)
         | Inr file_data \<Rightarrow>
             (case writestr L zout item file_data of
                Inl e \<Rightarrow> (zout, Some e)
              | Inr zout' \<Rightarrow> copy_items L truncated zin section_tree xml_path items zout')))"

section \<open>The file system and the log\<close>

text \<open>
  A file is, for \<open>zipfile.ZipFile\<close>, either a zip archive or not one.  The messages
  passed to \<open>log_callback\<close> are kept as values with the data that the program formats
  into their text.
\<close>

datatype fcontent = NotZip | Zip archive

datatype log_msg =
    MsgExtracting
  | MsgError string
  | MsgSplitting
  | MsgNoBoundary string
  | MsgSectionCount nat
  | MsgSectionStart nat
  | MsgSectionSaved nat string
  | MsgSectionFailed nat string
  | MsgNoFiles
  | MsgMergeCount nat
  | MsgBaseFailed string
  | MsgFileStart string
  | MsgFileFailed string string
  | MsgMergeSaved string
  | MsgMergeFailed string

text \<open>
  The state the program works on: the files and directories by path, the listing
  \<open>os.listdir\<close> gives for a directory, the messages logged so far, the next unused
  object identity, and the trees that \<open>ET.parse\<close> has returned so far.
\<close>

record world =
  files :: "string \<Rightarrow> fcontent option"
  dirs :: "string set"
  listdir :: "string \<Rightarrow> string list option"
  log :: "log_msg list"
  next_id :: nat
  parsed :: "elem list"

definition log_callback :: "world \<Rightarrow> log_msg \<Rightarrow> world" where
  "log_callback w m = w\<lparr>log := log w @ [m]\<rparr>"

text \<open>\<open>zipfile.ZipFile(path, 'r')\<close>\<close>

definition ZipFile_r :: "world \<Rightarrow> string \<Rightarrow> exn + archive" where
  "ZipFile_r w path =
     (case files w path of
        None \<Rightarrow> Inl (Exn ''FileNotFoundError'' (''No such file or directory: '' @ path))
      | Some NotZip \<Rightarrow> Inl (Exn ''BadZipFile'' ''File is not a zip file'')
      | Some (Zip z) \<Rightarrow> Inr z)"

text \<open>
  A path without its trailing separators, unless it consists of separators only, and
  \<open>os.path.dirname(path)\<close>: what is before the last separator, without trailing
  separators.
\<close>

definition strip_sep :: "string \<Rightarrow> string" where
  "strip_sep p =
     (if list_all (\<lambda>c. c = CHR ''/'') p then p
      else rev (dropWhile (\<lambda>c. c = CHR ''/'') (rev p)))"

definition dirname :: "string \<Rightarrow> string" where
  "dirname p = strip_sep (rev (dropWhile (\<lambda>c. c \<noteq> CHR ''/'') (rev p)))"

text \<open>
  \<open>os.makedirs(path, exist_ok=True)\<close>: afterwards the directory exists, under the path
  as it was given and under the path without trailing separators.
\<close>

definition makedirs :: "world \<Rightarrow> string \<Rightarrow> exn + world" where
  "makedirs w path =
     (if path = [] then Inl (Exn ''FileNotFoundError'' ''No such file or directory: '')
      else if files w path \<noteq> None then Inl (Exn ''FileExistsError'' (''File exists: '' @ path))
      else Inr (w\<lparr>dirs := insert path (insert (strip_sep path) (dirs w))\<rparr>))"

text \<open>
  Opening a file for writing, as \<open>zipfile.ZipFile(path, 'w')\<close> does first: it fails when
  the directory of the path does not exist (the empty directory name is the current
  directory) and when the path is a directory.
\<close>

definition open_w :: "world \<Rightarrow> string \<Rightarrow> exn option" where
  "open_w w path =
     (if path = [] \<or> (dirname path \<noteq> [] \<and> dirname path \<notin> dirs w) then
        Some (Exn ''FileNotFoundError'' (''No such file or directory: '' @ path))
      else if path \<in> dirs w then Some (Exn ''IsADirectoryError'' (''Is a directory: '' @ path))
      else None)"

text \<open>\<open>os.path.join(a, b)\<close> for a relative \<open>b\<close>, with the separator \<open>/\<close>.\<close>

definition path_join :: "string \<Rightarrow> string \<Rightarrow> string" where
  "path_join a b = (if a = [] \<or> last a = CHR ''/'' then a @ b else a @ ''/'' @ b)"

text \<open>\<open>str(i)\<close> for a non-negative integer.\<close>

function str_nat :: "nat \<Rightarrow> string" where
  "str_nat n =
     (if n < 10 then [char_of (48 + n)]
      else str_nat (n div 10) @ [char_of (48 + n mod 10)])"
  by pat_completeness auto
termination
  by (relation "measure id") auto

section \<open>The accessor\<close>

text \<open>
  The two texts of \<open>extract_hwpx_xml\<close>, as UTF-8: the prefix of the exception it raises
  ("error while opening/parsing the file: ") and the text of the \<open>FileNotFoundError\<close>
  for an archive without the content member, after the quoted path ("... file not
  found. Please check the file structure.").
\<close>

definition wrap_prefix :: string where
  "wrap_prefix =
     [CHR 0xED, CHR 0x8C, CHR 0x8C, CHR 0xEC, CHR 0x9D, CHR 0xBC] @ '' '' @
     [CHR 0xEC, CHR 0x97, CHR 0xB4, CHR 0xEA, CHR 0xB8, CHR 0xB0] @ ''/'' @
     [CHR 0xED, CHR 0x8C, CHR 0x8C, CHR 0xEC, CHR 0x8B, CHR 0xB1] @ '' '' @
     [CHR 0xEC, CHR 0xA4, CHR 0x91] @ '' '' @
     [CHR 0xEC, CHR 0x98, CHR 0xA4, CHR 0xEB, CHR 0xA5, CHR 0x98] @ '' '' @
     [CHR 0xEB, CHR 0xB0, CHR 0x9C, CHR 0xEC, CHR 0x83, CHR 0x9D] @ '': ''"

definition missing_msg :: "string \<Rightarrow> string" where
  "missing_msg xml_path =
     [CHR 0x27] @ xml_path @ [CHR 0x27] @ '' '' @
     [CHR 0xED, CHR 0x8C, CHR 0x8C, CHR 0xEC, CHR 0x9D, CHR 0xBC, CHR 0xEC, CHR 0x9D, CHR 0x84] @
     '' '' @ [CHR 0xEC, CHR 0xB0, CHR 0xBE, CHR 0xEC, CHR 0x9D, CHR 0x84] @ '' '' @
     [CHR 0xEC, CHR 0x88, CHR 0x98] @ '' '' @
     [CHR 0xEC, CHR 0x97, CHR 0x86, CHR 0xEC, CHR 0x8A, CHR 0xB5, CHR 0xEB, CHR 0x8B, CHR 0x88,
      CHR 0xEB, CHR 0x8B, CHR 0xA4] @ ''. '' @
     [CHR 0xED, CHR 0x8C, CHR 0x8C, CHR 0xEC, CHR 0x9D, CHR 0xBC] @ '' '' @
     [CHR 0xEA, CHR 0xB5, CHR 0xAC, CHR 0xEC, CHR 0xA1, CHR 0xB0, CHR 0xEB, CHR 0xA5, CHR 0xBC] @
     '' '' @
     [CHR 0xED, CHR 0x99, CHR 0x95, CHR 0xEC, CHR 0x9D, CHR 0xB8, CHR 0xED, CHR 0x95, CHR 0xB4,
      CHR 0xEC, CHR 0xA3, CHR 0xBC, CHR 0xEC, CHR 0x84, CHR 0xB8, CHR 0xEC, CHR 0x9A, CHR 0x94] @
     ''.''"

text \<open>\<open>except Exception as e: raise Exception(f"...: {e}")\<close>\<close>

definition wrap :: "exn \<Rightarrow> exn" where
  "wrap e = Exn ''Exception'' (wrap_prefix @ msg e)"

text \<open>
  \<open>ET.parse\<close>: the parser's tree, built of new objects, and the next unused identity.
\<close>

definition ET_parse :: "lib \<Rightarrow> nat \<Rightarrow> string \<Rightarrow> exn + (elem \<times> nat)" where
  "ET_parse L n data =
     (case XMLParser L data of Inl e \<Rightarrow> Inl e | Inr t \<Rightarrow> Inr (deepcopy n t))"

definition extract_hwpx_xml ::
  "lib \<Rightarrow> world \<Rightarrow> string \<Rightarrow> (exn + (elem \<times> string)) \<times> world"
where
  "extract_hwpx_xml L w file_path =
     (case ZipFile_r w file_path of
        Inl e \<Rightarrow> (Inl (wrap e), w)
      | Inr z \<Rightarrow>
          (let xml_path = ''Contents/section0.xml'' in
           if xml_path \<in> set (namelist z) then
             (case zip_read L False z xml_path of
                Inl e \<Rightarrow> (Inl (wrap e), w)
              | Inr data \<Rightarrow>
                  (case ET_parse L (next_id w) data of
                     Inl e \<Rightarrow> (Inl (wrap e), w)
                   | Inr (tree, n') \<Rightarrow>
                       (Inr (tree, xml_path),
                        w\<lparr>next_id := n', parsed := parsed w @ [tree]\<rparr>)))
           else (Inl (wrap (Exn ''FileNotFoundError'' (missing_msg xml_path))), w)))"

section \<open>The rewriter\<close>

text \<open>
  \<open>create_section_hwpx\<close>: the reference archive is opened for reading, the output file
  for writing, the members are copied, and the output file
  holds what was written when the archives are closed.  The second component of the
  result is the exception that the function raises, if any.
\<close>

definition create_section_hwpx ::
  "lib \<Rightarrow> world \<Rightarrow> string \<Rightarrow> elem \<Rightarrow> string \<Rightarrow> string \<Rightarrow> exn option \<times> world"
where
  "create_section_hwpx L w original_file section_tree xml_path output_file =
     (case ZipFile_r w original_file of
        Inl e \<Rightarrow> (Some e, w)
      | Inr zin \<Rightarrow>
          (case open_w w output_file of
             Some e \<Rightarrow> (Some e, w)
           | None \<Rightarrow>
               (case copy_items L (output_file = original_file) zin section_tree xml_path
                       (infolist zin) [] of
                  (zout, r) \<Rightarrow> (r, w\<lparr>files := (files w)(output_file \<mapsto> Zip zout)\<rparr>))))"

section \<open>The split orchestration\<close>

text \<open>
  The body of the loop \<open>for i, section_pages in enumerate(sections, start=1)\<close> of
  \<open>process_file\<close>: a failure to write the section is logged, not raised.
\<close>

definition write_section ::
  "lib \<Rightarrow> world \<Rightarrow> string \<Rightarrow> elem \<Rightarrow> string \<Rightarrow> string \<Rightarrow> nat \<Rightarrow> elem list \<Rightarrow> world"
where
  "write_section L w input_file tree xml_path output_dir i section_pages =
     (let w = log_callback w (MsgSectionStart i) in
      case create_section_tree (next_id w) tree section_pages of
        (section_tree, n') \<Rightarrow>
          (let w = w\<lparr>next_id := n'\<rparr>;
               output_file = path_join output_dir (''section_'' @ str_nat i @ ''.hwpx'')
           in case create_section_hwpx L w input_file section_tree xml_path output_file of
                (None, w') \<Rightarrow> log_callback w' (MsgSectionSaved i output_file)
              | (Some e, w') \<Rightarrow> log_callback w' (MsgSectionFailed i (msg e))))"

text \<open>The loop itself, with the counter of \<open>enumerate\<close>.\<close>

fun write_sections ::
  "lib \<Rightarrow> world \<Rightarrow> string \<Rightarrow> elem \<Rightarrow> string \<Rightarrow> string \<Rightarrow> nat \<Rightarrow> elem list list \<Rightarrow> world"
where
  "write_sections L w input_file tree xml_path output_dir i [] = w"
| "write_sections L w input_file tree xml_path output_dir i (section_pages # rest) =
     write_sections L
       (write_section L w input_file tree xml_path output_dir i section_pages)
       input_file tree xml_path output_dir (Suc i) rest"

text \<open>
  \<open>process_file\<close>.  The first component of the result is the exception that leaves the
  function, \<open>None\<close> when it returns.  \<open>split_by_template\<close> raises nothing, so the handler
  around it has no branch here; \<open>os.makedirs\<close> is outside every handler.
\<close>

definition process_file ::
  "lib \<Rightarrow> world \<Rightarrow> string \<Rightarrow> string \<Rightarrow> string \<Rightarrow> int \<Rightarrow> exn option \<times> world"
where
  "process_file L w input_file output_dir template skip_pages =
     (let w = log_callback w MsgExtracting in
      case extract_hwpx_xml L w input_file of
        (Inl e, w) \<Rightarrow> (None, log_callback w (MsgError (msg e)))
      | (Inr (tree, xml_path), w) \<Rightarrow>
          (let w = log_callback w MsgSplitting;
               sections = split_by_template tree template skip_pages
           in if sections = [] then (None, log_callback w (MsgNoBoundary template))
              else case makedirs w output_dir of
                     Inl e \<Rightarrow> (Some e, w)
                   | Inr w \<Rightarrow>
                       (let w = log_callback w (MsgSectionCount (length sections))
                        in (None, write_sections L w input_file tree xml_path output_dir
                                    1 sections))))"

section \<open>The merge orchestration\<close>

text \<open>\<open>file.lower().endswith(('.hwpx', '.hwtx'))\<close>\<close>

definition lower_char :: "char \<Rightarrow> char" where
  "lower_char c =
     (if CHR ''A'' \<le> c \<and> c \<le> CHR ''Z'' then char_of (of_char c + (32::nat)) else c)"

definition is_hwpx :: "string \<Rightarrow> bool" where
  "is_hwpx file =
     (suffix ''.hwpx'' (map lower_char file) \<or> suffix ''.hwtx'' (map lower_char file))"

text \<open>
  The body of the loop \<open>for file in files\<close> of \<open>merge_hwpx_files\<close>, with the list
  \<open>merged_pages\<close>: a file that cannot be extracted is logged and left out.
\<close>

definition collect_file :: "lib \<Rightarrow> world \<Rightarrow> string \<Rightarrow> elem list \<Rightarrow> elem list \<times> world" where
  "collect_file L w file merged_pages =
     (let w = log_callback w (MsgFileStart file) in
      case extract_hwpx_xml L w file of
        (Inr (tree, xp), w) \<Rightarrow>
          (case deepcopy_list (next_id w) (children tree) of
             (pages, n') \<Rightarrow> (merged_pages @ pages, w\<lparr>next_id := n'\<rparr>))
      | (Inl e, w) \<Rightarrow> (merged_pages, log_callback w (MsgFileFailed file (msg e))))"

fun collect_pages :: "lib \<Rightarrow> world \<Rightarrow> string list \<Rightarrow> elem list \<Rightarrow> elem list \<times> world" where
  "collect_pages L w [] merged_pages = (merged_pages, w)"
| "collect_pages L w (file # rest) merged_pages =
     (case collect_file L w file merged_pages of
        (merged_pages', w') \<Rightarrow> collect_pages L w' rest merged_pages')"

definition merge_hwpx_files ::
  "lib \<Rightarrow> world \<Rightarrow> string \<Rightarrow> string \<Rightarrow> exn option \<times> world"
where
  "merge_hwpx_files L w input_folder output_folder =
     (case listdir w input_folder of
        None \<Rightarrow>
          (Some (Exn ''FileNotFoundError'' (''No such file or directory: '' @ input_folder)), w)
      | Some names \<Rightarrow>
          (let files = map (path_join input_folder) (filter is_hwpx names) in
           if files = [] then (None, log_callback w MsgNoFiles)
           else
             (let files = sort files;
                  w = log_callback w (MsgMergeCount (length files))
              in case extract_hwpx_xml L w (hd files) of
                   (Inl e, w) \<Rightarrow> (None, log_callback w (MsgBaseFailed (msg e)))
                 | (Inr (base_tree, xml_path), w) \<Rightarrow>
                     (case collect_pages L w files [] of
                        (merged_pages, w) \<Rightarrow>
                          (let new_root = Elem (next_id w) (tag base_tree) (attrib base_tree)
                                            [] merged_pages [];
                               w = w\<lparr>next_id := Suc (next_id w)\<rparr>
                           in case makedirs w output_folder of
                                Inl e \<Rightarrow> (Some e, w)
                              | Inr w \<Rightarrow>
                                  (let output_file = path_join output_folder ''merged.hwpx''
                                   in case create_section_hwpx L w (hd files) new_root
                                             xml_path output_file of
                                        (Some e, w) \<Rightarrow>
                                          (None, log_callback w (MsgMergeFailed (msg e)))
                                      | (None, w) \<Rightarrow>
                                          (None,
                                           log_callback w (MsgMergeSaved output_file))))))))"

section \<open>Notions used in the properties\<close>

text \<open>
  A well-formed section: it is not empty, its first page has the template in its text, and
  no later page of it has.
\<close>

definition section_ok :: "string \<Rightarrow> elem list \<Rightarrow> bool" where
  "section_ok template sec =
     (sec \<noteq> [] \<and> has_template template (hd sec) \<and>
      (\<forall>p \<in> set (tl sec). \<not> has_template template p))"

text \<open>
  The last statement of \<open>split_by_template\<close>, which appends the section still open when
  the loop ends.
\<close>

definition close_sections :: "elem list list \<times> elem list \<Rightarrow> elem list list" where
  "close_sections r = (case r of (sections, current_section) \<Rightarrow>
     if current_section \<noteq> [] then sections @ [current_section] else sections)"

text \<open>
  A content tree with five pages, used to run the functions on a concrete input.  The
  template \<open>[F7]\<close> is in the text of the second page, split between the text and the tail
  of a descendant, and in the text of the fourth; the tail of the fifth page has it, but
  a page's tail is not part of the page's text.
\<close>

definition ex_pages :: "elem list" where
  "ex_pages =
     [Elem 1 ''p'' [] ''cover'' [] [CHR 0x0A],
      Elem 2 ''p'' [] [] [Elem 3 ''run'' [] ''[F'' [] ''7] first''] [],
      Elem 4 ''p'' [] ''body'' [] [],
      Elem 5 ''p'' [] ''x [F7] second'' [] [],
      Elem 6 ''p'' [] ''body'' [] ''[F7]'']"

definition ex_root :: elem where
  "ex_root = Elem 0 ''sec'' [(''id'', ''0'')] [] ex_pages []"

text \<open>
  The codecs of the library are lossless: decompressing what a codec has compressed gives
  the data back.
\<close>

definition lossless :: "lib \<Rightarrow> bool" where
  "lossless L = (\<forall>ct d. supported L ct \<longrightarrow> decompress L ct (compress L ct d) = Inr d)"

text \<open>
  What the loop of \<open>create_section_hwpx\<close> writes for one member of the reference archive
  when it does not fail on it: the \<open>ZipInfo\<close> as \<open>writestr\<close> leaves it, and as stored
  bytes the compression of the new content for the content member and of what was read
  from the reference archive for any other member.
\<close>

definition member_copied ::
  "lib \<Rightarrow> bool \<Rightarrow> archive \<Rightarrow> elem \<Rightarrow> string \<Rightarrow> zipinfo \<Rightarrow> member \<Rightarrow> bool"
where
  "member_copied L truncated zin tree xml_path item m' =
     (\<exists>d. (if filename item = xml_path then d = xml_declaration @ tostring L tree
           else zip_read L truncated zin (filename item) = Inr d) \<and>
          fst m' = written_info L item d \<and>
          zip_compress L (compress_type item) d = Inr (snd m'))"

text \<open>The archive that a path holds, empty when the path holds none.\<close>

definition archive_at :: "world \<Rightarrow> string \<Rightarrow> archive" where
  "archive_at w path = (case files w path of Some (Zip z) \<Rightarrow> z | _ \<Rightarrow> [])"


















subsection \<open>A library and a file system to run the program on\<close>

text \<open>
  A codec for the method "deflated" that writes and reads stored (uncompressed) deflate
  blocks of at most 255 bytes: a block is a header byte (1 for the last block, 0
  otherwise), the length and its complement in two bytes each, low byte first, and the
  data.
\<close>

definition stored_block :: "bool \<Rightarrow> string \<Rightarrow> string" where
  "stored_block final d =
     [if final then CHR 0x01 else CHR 0x00,
      char_of (length d), CHR 0x00, char_of (255 - length d), CHR 0xFF] @ d"

function deflate_stored :: "string \<Rightarrow> string" where
  "deflate_stored d =
     (if length d \<le> 255 then stored_block True d
      else stored_block False (take 255 d) @ deflate_stored (drop 255 d))"
  by pat_completeness auto
termination
  by (relation "measure length") auto

function inflate_stored :: "string \<Rightarrow> string option" where
  "inflate_stored (h # l0 # l1 # n0 # n1 # rest) =
     (let len = of_char l0 in
      if (h = CHR 0x00 \<or> h = CHR 0x01) \<and> l1 = CHR 0x00 \<and> n1 = CHR 0xFF \<and>
         of_char l0 + of_char n0 = (255::nat) \<and> len \<le> length rest
      then if h = CHR 0x01 then (if drop len rest = [] then Some (take len rest) else None)
           else map_option (\<lambda>d. take len rest @ d) (inflate_stored (drop len rest))
      else None)"
| "inflate_stored [] = None"
| "inflate_stored [h] = None"
| "inflate_stored [h, l0] = None"
| "inflate_stored [h, l0, l1] = None"
| "inflate_stored [h, l0, l1, n0] = None"
  by pat_completeness auto
termination
  by (relation "measure length") auto

text \<open>A serialiser without escaping and name spaces, for trees that need neither.\<close>

fun ex_tostring :: "elem \<Rightarrow> string" where
  "ex_tostring (Elem i tg at tx ch ta) =
     ''<'' @ tg @
     concat (map (\<lambda>kv. '' '' @ fst kv @ ''='' @ [CHR 0x22] @ snd kv @ [CHR 0x22]) at) @
     ''>'' @ tx @ concat (map ex_tostring ch) @ ''</'' @ tg @ ''>'' @ ta"

text \<open>A second document, of one page without the template.\<close>

definition ex_root2 :: elem where
  "ex_root2 = Elem 0 ''sec'' [(''id'', ''2'')] [] [Elem 1 ''p'' [] ''appendix'' [] []] []"

text \<open>
  A parser that knows the serialisations of the two example documents, with or without
  the XML declaration, and reports for everything else the error of an input that ends
  inside an element.
\<close>

definition ex_parser :: "string \<Rightarrow> exn + elem" where
  "ex_parser s =
     (if s = ex_tostring ex_root \<or> s = xml_declaration @ ex_tostring ex_root then Inr ex_root
      else if s = ex_tostring ex_root2 \<or> s = xml_declaration @ ex_tostring ex_root2
           then Inr ex_root2
      else Inl (Exn ''ParseError'' ''no element found: line 1, column 8''))"

text \<open>A checksum in place of CRC-32.\<close>

definition ex_crc32 :: "string \<Rightarrow> int" where
  "ex_crc32 s = foldl (\<lambda>a c. (a * 31 + of_char c) mod 65521) 1 s"

definition ex_lib :: lib where
  "ex_lib = \<lparr>supported = (\<lambda>ct. ct = ZIP_DEFLATED),
             compress = (\<lambda>ct. deflate_stored),
             decompress = (\<lambda>ct s. case inflate_stored s of
                  None \<Rightarrow> Inl (Exn ''zlib.error'' ''Error -3 while decompressing data'')
                | Some d \<Rightarrow> Inr d),
             crc32 = ex_crc32,
             XMLParser = ex_parser,
             tostring = ex_tostring\<rparr>"


text \<open>
  A member as an archiver writes it that sets the flag for UTF-8 names (\<open>0x800\<close>) and no
  external attributes: its \<open>ZipInfo\<close>, with the checksum of the content, and the bytes
  stored for it.
\<close>

definition ex_member :: "string \<Rightarrow> int \<Rightarrow> string \<Rightarrow> string \<Rightarrow> member" where
  "ex_member name ct content stored =
     (\<lparr>filename = name, date_time = [2024, 1, 1, 0, 0, 0], compress_type = ct,
       comment = [], extra = [], external_attr = 0, flag_bits = 2048,
       CRC = ex_crc32 content\<rparr>, stored)"

text \<open>
  An archive of three members.  The bytes stored for the third are a valid deflate stream
  for the content \<open>a\<close>: an empty stored block followed by a last stored block.
\<close>

definition ex_zin :: archive where
  "ex_zin =
     [ex_member ''mimetype'' ZIP_STORED ''application/hwp+zip'' ''application/hwp+zip'',
      ex_member ''Contents/section0.xml'' ZIP_STORED (ex_tostring ex_root)
        (ex_tostring ex_root),
      ex_member ''Preview/PrvText.txt'' ZIP_DEFLATED ''a''
        [CHR 0x00, CHR 0x00, CHR 0x00, CHR 0xFF, CHR 0xFF,
         CHR 0x01, CHR 0x01, CHR 0x00, CHR 0xFE, CHR 0xFF, CHR ''a'']]"

text \<open>An archive whose content member is not XML, and one without content member.\<close>

definition ex_zin_malformed :: archive where
  "ex_zin_malformed =
     [ex_member ''mimetype'' ZIP_STORED ''application/hwp+zip'' ''application/hwp+zip'',
      ex_member ''Contents/section0.xml'' ZIP_STORED ''<sec><p>'' ''<sec><p>'']"

definition ex_zin_missing :: archive where
  "ex_zin_missing =
     [ex_member ''mimetype'' ZIP_STORED ''application/hwp+zip'' ''application/hwp+zip'']"

definition ex_zin2 :: archive where
  "ex_zin2 =
     [ex_member ''Contents/section0.xml'' ZIP_STORED (ex_tostring ex_root2)
        (ex_tostring ex_root2),
      ex_member ''mimetype'' ZIP_STORED ''application/zip'' ''application/zip'']"

definition ex_files :: "string \<Rightarrow> fcontent option" where
  "ex_files =
     map_of [(''in/a.hwpx'', Zip ex_zin), (''in/b.hwtx'', Zip ex_zin_malformed),
             (''in/c.HWPX'', Zip ex_zin2), (''in/notes.txt'', NotZip),
             (''other/m.hwpx'', Zip ex_zin_missing)]"

definition ex_world :: world where
  "ex_world =
     \<lparr>files = ex_files, dirs = {''in'', ''other'', ''empty'', ''out''},
      listdir = map_of [(''in'', [''c.HWPX'', ''notes.txt'', ''b.hwtx'', ''a.hwpx'']),
                        (''other'', [''m.hwpx'']), (''empty'', [''notes.txt''])],
      log = [], next_id = 100, parsed = []\<rparr>"

section \<open>Properties of the segmentation\<close>

lemma split_by_template_alt:
  "split_by_template root template skip_pages =
     close_sections (split_loop template (slice_from skip_pages (children root)) [] [])"
  by (simp add: split_by_template_def close_sections_def Let_def split: prod.splits)

lemma split_loop_concat:
  "concat (close_sections (split_loop t ps secs cur)) =
     concat secs @ cur @
       (if cur = [] then dropWhile (\<lambda>p. \<not> has_template t p) ps else ps)"
  by (induction ps arbitrary: secs cur) (auto simp: close_sections_def)

lemma split_loop_ok:
  "\<forall>s \<in> set secs. section_ok t s \<Longrightarrow> (cur \<noteq> [] \<longrightarrow> section_ok t cur) \<Longrightarrow>
   \<forall>s \<in> set (close_sections (split_loop t ps secs cur)). section_ok t s"
proof (induction ps arbitrary: secs cur)
  case Nil
  then show ?case by (auto simp: close_sections_def)
next
  case (Cons p ps)
  show ?case
  proof (cases "has_template t p")
    case True
    have "\<forall>s \<in> set (close_sections (split_loop t ps
            (if cur \<noteq> [] then secs @ [cur] else secs) [p])). section_ok t s"
      using Cons.prems True by (intro Cons.IH) (auto simp: section_ok_def)
    with True show ?thesis by simp
  next
    case False
    have "\<forall>s \<in> set (close_sections (split_loop t ps secs
            (if cur \<noteq> [] then cur @ [p] else cur))). section_ok t s"
      using Cons.prems False by (intro Cons.IH) (auto simp: section_ok_def)
    with False show ?thesis by simp
  qed
qed

lemma has_template_Nil: "has_template [] p"
  by (simp add: has_template_def)

lemma split_loop_empty_template:
  "close_sections (split_loop [] ps secs cur) =
     secs @ (if cur \<noteq> [] then [cur] else []) @ map (\<lambda>p. [p]) ps"
  by (induction ps arbitrary: secs cur) (auto simp: close_sections_def has_template_Nil)

lemma disjoint_sections:
  assumes "distinct (map f (concat xss))" "i < j" "j < length xss"
  shows "f ` set (xss ! i) \<inter> f ` set (xss ! j) = {}"
  using assms
proof (induction xss arbitrary: i j)
  case Nil
  then show ?case by simp
next
  case (Cons xs xss)
  show ?case
  proof (cases i)
    case 0
    then obtain j' where j: "j = Suc j'" using Cons.prems(2) by (cases j) auto
    have "xss ! j' \<in> set xss" using Cons.prems(3) j by simp
    then have "set (xss ! j') \<subseteq> set (concat xss)" by auto
    then show ?thesis using Cons.prems(1) 0 j by auto
  next
    case (Suc i')
    then obtain j' where j: "j = Suc j'" using Cons.prems(2) by (cases j) auto
    have "distinct (map f (concat xss))" using Cons.prems(1) by simp
    then show ?thesis using Cons.IH[of i' j'] Cons.prems Suc j by simp
  qed
qed

lemma slice_from_nonneg: "0 \<le> k \<Longrightarrow> slice_from k xs = drop (nat k) xs"
  by (simp add: slice_from_def)

lemma split_concat_drop:
  "0 \<le> k \<Longrightarrow> concat (split_by_template root t k) =
     dropWhile (\<lambda>p. \<not> has_template t p) (drop (nat k) (children root))"
  by (simp add: split_by_template_alt split_loop_concat slice_from_nonneg)

text \<open>
  Claim C2.  For a non-negative skip count the pages skipped at the front, the pages
  dropped before the first page that has the template, and the pages of the returned
  sections, in this order, are exactly the children of the root; so the multiset of the
  three parts is the multiset of all pages.  When the pages are distinct objects, no page
  is in two sections, and none is twice in one.
\<close>

theorem split_by_template_partition:
  assumes "0 \<le> skip_pages"
  shows "take (nat skip_pages) (children root) @
           takeWhile (\<lambda>p. \<not> has_template template p) (drop (nat skip_pages) (children root)) @
           concat (split_by_template root template skip_pages) = children root
       \<and> mset (concat (split_by_template root template skip_pages)) +
           mset (take (nat skip_pages) (children root)) +
           mset (takeWhile (\<lambda>p. \<not> has_template template p)
                   (drop (nat skip_pages) (children root))) = mset (children root)
       \<and> (distinct (map ident (children root)) \<longrightarrow>
            (\<forall>i j. i < j \<and> j < length (split_by_template root template skip_pages) \<longrightarrow>
               ident ` set (split_by_template root template skip_pages ! i) \<inter>
               ident ` set (split_by_template root template skip_pages ! j) = {}) \<and>
            (\<forall>sec \<in> set (split_by_template root template skip_pages).
               distinct (map ident sec)))"
proof -
  let ?ps = "children root"
  let ?secs = "split_by_template root template skip_pages"
  let ?P = "\<lambda>p. \<not> has_template template p"
  have c: "concat ?secs = dropWhile ?P (drop (nat skip_pages) ?ps)"
    using assms by (rule split_concat_drop)
  have seq: "take (nat skip_pages) ?ps @ takeWhile ?P (drop (nat skip_pages) ?ps) @ concat ?secs
               = ?ps"
    by (simp add: c)
  have "mset (take (nat skip_pages) ?ps @ takeWhile ?P (drop (nat skip_pages) ?ps) @ concat ?secs)
          = mset ?ps"
    by (simp only: seq)
  then have ms: "mset (concat ?secs) + mset (take (nat skip_pages) ?ps) +
                 mset (takeWhile ?P (drop (nat skip_pages) ?ps)) = mset ?ps"
    by (simp add: ac_simps)
  have dis: "distinct (map ident (concat ?secs))" if d: "distinct (map ident ?ps)"
  proof -
    have "distinct (map ident (take (nat skip_pages) ?ps @
            takeWhile ?P (drop (nat skip_pages) ?ps) @ concat ?secs))"
      using d by (simp only: seq)
    then show ?thesis by simp
  qed
  have d1: "ident ` set (?secs ! i) \<inter> ident ` set (?secs ! j) = {}"
    if "distinct (map ident ?ps)" "i < j" "j < length ?secs" for i j
    using disjoint_sections[OF dis[OF that(1)] that(2,3)] .
  have d2: "distinct (map ident sec)" if "distinct (map ident ?ps)" "sec \<in> set ?secs" for sec
  proof -
    have "distinct (concat (map (map ident) ?secs))"
      using dis[OF that(1)] by (simp add: map_concat)
    then show ?thesis using that(2) by (auto simp: distinct_concat_iff)
  qed
  show ?thesis using seq ms d1 d2 by blast
qed

theorem split_by_template_partition_witness:
  "(0::int) \<le> 1 \<and> distinct (map ident (children ex_root)) \<and>
   split_by_template ex_root ''[F7]'' 1 \<noteq> [] \<and>
   take 1 (children ex_root) @
     takeWhile (\<lambda>p. \<not> has_template ''[F7]'' p) (drop 1 (children ex_root)) @
     concat (split_by_template ex_root ''[F7]'' 1) = children ex_root \<and>
   ident ` set (split_by_template ex_root ''[F7]'' 1 ! 0) \<inter>
   ident ` set (split_by_template ex_root ''[F7]'' 1 ! 1) = {}"
proof -
  have h: "(0::int) \<le> 1" by simp
  have d: "distinct (map ident (children ex_root))" by code_simp
  have n: "split_by_template ex_root ''[F7]'' 1 \<noteq> []" by code_simp
  have l: "(0::nat) < 1 \<and> 1 < length (split_by_template ex_root ''[F7]'' 1)" by code_simp
  show ?thesis
    using split_by_template_partition[OF h, of ex_root "''[F7]''"] d n l by simp
qed

text \<open>
  Claim C4.  For a root with the five pages \<open>P0\<close> to \<open>P4\<close>, a skip count of 1 and a
  template that is in the text of \<open>P1\<close> and \<open>P3\<close> and not in the text of \<open>P2\<close> and \<open>P4\<close>,
  \<open>split_by_template\<close> returns exactly the sections \<open>[P1, P2]\<close> and \<open>[P3, P4]\<close>; the page
  \<open>P0\<close>, an object of its own, is in none of them, whatever its text.
\<close>

theorem split_by_template_scenario:
  assumes "children root = [P0, P1, P2, P3, P4]"
    and "has_template template P1" and "\<not> has_template template P2"
    and "has_template template P3" and "\<not> has_template template P4"
  shows "split_by_template root template 1 = [[P1, P2], [P3, P4]] \<and>
         (distinct (map ident [P0, P1, P2, P3, P4]) \<longrightarrow>
            (\<forall>sec \<in> set (split_by_template root template 1). ident P0 \<notin> ident ` set sec))"
proof -
  have "split_by_template root template 1 = [[P1, P2], [P3, P4]]"
    using assms by (simp add: split_by_template_def slice_from_def)
  then show ?thesis by auto
qed

theorem split_by_template_scenario_witness:
  "children ex_root = [ex_pages ! 0, ex_pages ! 1, ex_pages ! 2, ex_pages ! 3, ex_pages ! 4] \<and>
   has_template ''[F7]'' (ex_pages ! 1) \<and> \<not> has_template ''[F7]'' (ex_pages ! 2) \<and>
   has_template ''[F7]'' (ex_pages ! 3) \<and> \<not> has_template ''[F7]'' (ex_pages ! 4) \<and>
   distinct (map ident [ex_pages ! 0, ex_pages ! 1, ex_pages ! 2, ex_pages ! 3, ex_pages ! 4]) \<and>
   split_by_template ex_root ''[F7]'' 1 =
     [[ex_pages ! 1, ex_pages ! 2], [ex_pages ! 3, ex_pages ! 4]] \<and>
   ident (ex_pages ! 0) \<notin> ident ` set (concat (split_by_template ex_root ''[F7]'' 1))"
proof -
  have c: "children ex_root =
             [ex_pages ! 0, ex_pages ! 1, ex_pages ! 2, ex_pages ! 3, ex_pages ! 4]"
    by code_simp
  have h1: "has_template ''[F7]'' (ex_pages ! 1)" by code_simp
  have h2: "\<not> has_template ''[F7]'' (ex_pages ! 2)" by code_simp
  have h3: "has_template ''[F7]'' (ex_pages ! 3)" by code_simp
  have h4: "\<not> has_template ''[F7]'' (ex_pages ! 4)" by code_simp
  have d: "distinct (map ident
             [ex_pages ! 0, ex_pages ! 1, ex_pages ! 2, ex_pages ! 3, ex_pages ! 4])"
    by code_simp
  have t: "split_by_template ex_root ''[F7]'' 1 =
             [[ex_pages ! 1, ex_pages ! 2], [ex_pages ! 3, ex_pages ! 4]] \<and>
           (\<forall>sec \<in> set (split_by_template ex_root ''[F7]'' 1).
              ident (ex_pages ! 0) \<notin> ident ` set sec)"
    using split_by_template_scenario[OF c h1 h2 h3 h4] d by blast
  then have "ident (ex_pages ! 0) \<notin>
               ident ` set (concat (split_by_template ex_root ''[F7]'' 1))"
    by auto
  with t c h1 h2 h3 h4 d show ?thesis by blast
qed

text \<open>
  Claim C9.  Every section that \<open>split_by_template\<close> returns is non-empty, the text of its
  first page contains the template, and the text of none of its other pages does.  This
  holds for every tree, template and skip count.
\<close>

theorem split_by_template_sections_shape:
  "\<forall>sec \<in> set (split_by_template root template skip_pages).
     sec \<noteq> [] \<and> has_template template (hd sec) \<and>
     (\<forall>p \<in> set (tl sec). \<not> has_template template p)"
proof -
  have "\<forall>s \<in> set (close_sections
          (split_loop template (slice_from skip_pages (children root)) [] [])).
          section_ok template s"
    by (rule split_loop_ok) simp_all
  then show ?thesis
    by (simp add: split_by_template_alt section_ok_def)
qed

theorem split_by_template_sections_shape_witness:
  "split_by_template ex_root ''[F7]'' 1 \<noteq> [] \<and>
   hd (split_by_template ex_root ''[F7]'' 1) \<noteq> [] \<and>
   has_template ''[F7]'' (hd (hd (split_by_template ex_root ''[F7]'' 1))) \<and>
   tl (hd (split_by_template ex_root ''[F7]'' 1)) \<noteq> [] \<and>
   list_all (\<lambda>p. \<not> has_template ''[F7]'' p) (tl (hd (split_by_template ex_root ''[F7]'' 1)))"
proof -
  have n: "split_by_template ex_root ''[F7]'' 1 \<noteq> []" by code_simp
  have t: "tl (hd (split_by_template ex_root ''[F7]'' 1)) \<noteq> []" by code_simp
  have m: "hd (split_by_template ex_root ''[F7]'' 1) \<in> set (split_by_template ex_root ''[F7]'' 1)"
    using n by simp
  have "hd (split_by_template ex_root ''[F7]'' 1) \<noteq> [] \<and>
        has_template ''[F7]'' (hd (hd (split_by_template ex_root ''[F7]'' 1))) \<and>
        (\<forall>p \<in> set (tl (hd (split_by_template ex_root ''[F7]'' 1))).
           \<not> has_template ''[F7]'' p)"
    using split_by_template_sections_shape[of ex_root "''[F7]''" 1] m by blast
  with n t show ?thesis by (simp add: list_all_iff)
qed

text \<open>
  Claim C10.  With the empty string as template every page counts as containing it, and
  \<open>split_by_template\<close> returns one section of one page for every page that is left after
  the skipped prefix; it raises nothing.
\<close>

theorem split_by_template_empty_template:
  "has_template [] page \<and>
   split_by_template root [] skip_pages =
     map (\<lambda>p. [p]) (slice_from skip_pages (children root)) \<and>
   (0 \<le> skip_pages \<longrightarrow>
      split_by_template root [] skip_pages =
        map (\<lambda>p. [p]) (drop (nat skip_pages) (children root)))"
  by (simp add: has_template_Nil split_by_template_alt split_loop_empty_template
        slice_from_nonneg)

theorem split_by_template_empty_template_witness:
  "(0::int) \<le> 1 \<and> has_template [] (ex_pages ! 0) \<and>
   split_by_template ex_root [] 1 =
     [[ex_pages ! 1], [ex_pages ! 2], [ex_pages ! 3], [ex_pages ! 4]]"
proof -
  have h: "(0::int) \<le> 1" by simp
  have e: "map (\<lambda>p. [p]) (drop (nat 1) (children ex_root)) =
           [[ex_pages ! 1], [ex_pages ! 2], [ex_pages ! 3], [ex_pages ! 4]]"
    by code_simp
  have t: "has_template [] (ex_pages ! 0) \<and>
           (0 \<le> (1::int) \<longrightarrow> split_by_template ex_root [] 1 =
              map (\<lambda>p. [p]) (drop (nat 1) (children ex_root)))"
    using split_by_template_empty_template[of "ex_pages ! 0" ex_root 1] by blast
  from t h have "split_by_template ex_root [] 1 =
                   map (\<lambda>p. [p]) (drop (nat 1) (children ex_root))" by blast
  with e t h show ?thesis by (simp only: simp_thms)
qed

section \<open>Properties of the accessor and of the orchestration\<close>

lemma extract_hwpx_xml_log:
  "extract_hwpx_xml L (log_callback w m) file_path =
     (case extract_hwpx_xml L w file_path of (r, w') \<Rightarrow> (r, log_callback w' m))"
  by (simp add: extract_hwpx_xml_def log_callback_def ZipFile_r_def Let_def
      split: sum.splits prod.splits option.splits fcontent.splits)

lemma extract_hwpx_xml_frame:
  assumes "extract_hwpx_xml L w file_path = (r, w')"
  shows "files w' = files w \<and> dirs w' = dirs w \<and> listdir w' = listdir w \<and> log w' = log w"
  using assms
  by (auto simp: extract_hwpx_xml_def Let_def
      split: sum.splits prod.splits option.splits fcontent.splits if_splits)

lemma split_loop_no_template:
  "\<forall>p \<in> set ps. \<not> has_template t p \<Longrightarrow> split_loop t ps [] [] = ([], [])"
  by (induction ps) auto




text \<open>
  Claim C6.  When the extraction succeeds and no page left after the skipped prefix has
  the template in its text, \<open>split_by_template\<close> returns no section, and \<open>process_file\<close>
  returns without an exception, leaves all files and directories as they were, and logs
  the message that no page with the template was found as its last message.
\<close>

theorem process_file_no_boundary:
  assumes "fst (extract_hwpx_xml L w input_file) = Inr (tree, xml_path)"
    and "\<forall>page \<in> set (slice_from skip_pages (children tree)).
           \<not> has_template template page"
  shows "split_by_template tree template skip_pages = [] \<and>
         fst (process_file L w input_file output_dir template skip_pages) = None \<and>
         files (snd (process_file L w input_file output_dir template skip_pages)) = files w \<and>
         dirs (snd (process_file L w input_file output_dir template skip_pages)) = dirs w \<and>
         log (snd (process_file L w input_file output_dir template skip_pages)) =
           log w @ [MsgExtracting, MsgSplitting, MsgNoBoundary template]"
proof -
  obtain w1 where e: "extract_hwpx_xml L w input_file = (Inr (tree, xml_path), w1)"
    using assms(1) by (cases "extract_hwpx_xml L w input_file") auto
  have f: "files w1 = files w" "dirs w1 = dirs w" "log w1 = log w"
    using extract_hwpx_xml_frame[OF e] by auto
  have s: "split_by_template tree template skip_pages = []"
    using assms(2) by (simp add: split_by_template_def split_loop_no_template)
  have p: "process_file L w input_file output_dir template skip_pages =
             (None, log_callback (log_callback (log_callback w1 MsgExtracting) MsgSplitting)
                      (MsgNoBoundary template))"
    by (simp add: process_file_def extract_hwpx_xml_log e s Let_def)
  show ?thesis using s f by (simp add: p log_callback_def)
qed

theorem process_file_no_boundary_witness:
  "fst (extract_hwpx_xml ex_lib ex_world ''in/c.HWPX'') =
     Inr (Elem 100 ''sec'' [(''id'', ''2'')] [] [Elem 101 ''p'' [] ''appendix'' [] []] [],
          ''Contents/section0.xml'') \<and>
   slice_from 0 (children (Elem 100 ''sec'' [(''id'', ''2'')] []
      [Elem 101 ''p'' [] ''appendix'' [] []] [])) \<noteq> [] \<and>
   fst (process_file ex_lib ex_world ''in/c.HWPX'' ''out'' ''[F7]'' 0) = None \<and>
   files (snd (process_file ex_lib ex_world ''in/c.HWPX'' ''out'' ''[F7]'' 0)) = files ex_world \<and>
   dirs (snd (process_file ex_lib ex_world ''in/c.HWPX'' ''out'' ''[F7]'' 0)) = dirs ex_world \<and>
   log (snd (process_file ex_lib ex_world ''in/c.HWPX'' ''out'' ''[F7]'' 0)) =
     log ex_world @ [MsgExtracting, MsgSplitting, MsgNoBoundary ''[F7]'']"
proof -
  let ?t = "Elem 100 ''sec'' [(''id'', ''2'')] [] [Elem 101 ''p'' [] ''appendix'' [] []] []"
  have h1: "fst (extract_hwpx_xml ex_lib ex_world ''in/c.HWPX'') =
              Inr (?t, ''Contents/section0.xml'')"
    by code_simp
  have h2: "\<forall>page \<in> set (slice_from 0 (children ?t)). \<not> has_template ''[F7]'' page"
    by code_simp
  have h3: "slice_from 0 (children ?t) \<noteq> []" by code_simp
  show ?thesis
    using process_file_no_boundary[OF h1 h2, of "''out''"] h1 h3 by blast
qed

text \<open>
  Claim C8.  When no name in the input folder ends in \<open>.hwpx\<close> or \<open>.hwtx\<close>,
  \<open>merge_hwpx_files\<close> returns without an exception after logging that no file was found
  and changes nothing else: no file is written and no directory created, the output
  directory included.
\<close>

theorem merge_hwpx_files_no_candidates:
  assumes "listdir w input_folder = Some names"
    and "\<forall>file \<in> set names. \<not> is_hwpx file"
  shows "merge_hwpx_files L w input_folder output_folder =
           (None, w\<lparr>log := log w @ [MsgNoFiles]\<rparr>) \<and>
         files (snd (merge_hwpx_files L w input_folder output_folder)) = files w \<and>
         dirs (snd (merge_hwpx_files L w input_folder output_folder)) = dirs w"
proof -
  have "filter is_hwpx names = []" using assms(2) by (simp add: filter_empty_conv)
  then show ?thesis
    using assms(1) by (simp add: merge_hwpx_files_def log_callback_def)
qed

theorem merge_hwpx_files_no_candidates_witness:
  "listdir ex_world ''empty'' = Some [''notes.txt''] \<and> \<not> is_hwpx ''notes.txt'' \<and>
   ''merged_output'' \<notin> dirs ex_world \<and>
   merge_hwpx_files ex_lib ex_world ''empty'' ''merged_output'' =
     (None, ex_world\<lparr>log := log ex_world @ [MsgNoFiles]\<rparr>) \<and>
   files (snd (merge_hwpx_files ex_lib ex_world ''empty'' ''merged_output'')) = files ex_world \<and>
   dirs (snd (merge_hwpx_files ex_lib ex_world ''empty'' ''merged_output'')) = dirs ex_world"
proof -
  have h1: "listdir ex_world ''empty'' = Some [''notes.txt'']" by code_simp
  have h2: "\<forall>file \<in> set [''notes.txt'']. \<not> is_hwpx file" by code_simp
  have h3: "''merged_output'' \<notin> dirs ex_world" by code_simp
  show ?thesis
    using merge_hwpx_files_no_candidates[OF h1 h2, of ex_lib "''merged_output''"] h1 h2 h3
    by simp
qed

section \<open>Properties of the rewriter\<close>

lemma getinfo_distinct:
  "distinct (namelist z) \<Longrightarrow> m \<in> set z \<Longrightarrow> getinfo z (filename (fst m)) = Some m"
proof (induction z)
  case Nil
  then show ?case by simp
next
  case (Cons a z)
  show ?case
  proof (cases "m = a")
    case True
    have "filename (fst a) \<notin> (\<lambda>m. filename (fst m)) ` set z"
      using Cons.prems(1) by (simp add: namelist_def)
    then have "\<forall>m' \<in> set z. filename (fst m') \<noteq> filename (fst a)"
      by (metis imageI)
    then have "filter (\<lambda>m'. filename (fst m') = filename (fst a)) z = []"
      by (simp add: filter_empty_conv)
    then show ?thesis using True by (simp add: getinfo_def)
  next
    case False
    then have in_z: "m \<in> set z" using Cons.prems(2) by simp
    have d: "distinct (namelist z)" using Cons.prems(1) by (simp add: namelist_def)
    have "filename (fst a) \<notin> (\<lambda>m. filename (fst m)) ` set z"
      using Cons.prems(1) by (simp add: namelist_def)
    then have ne: "filename (fst a) \<noteq> filename (fst m)"
      using in_z by (metis imageI)
    have "getinfo (a # z) (filename (fst m)) = getinfo z (filename (fst m))"
      using ne by (simp add: getinfo_def)
    then show ?thesis using Cons.IH[OF d in_z] by simp
  qed
qed

lemma zip_read_nth:
  assumes "distinct (namelist z)" and "i < length z"
  shows "zip_read L False z (filename (fst (z ! i))) = read_member L (z ! i)"
  using getinfo_distinct[OF assms(1) nth_mem[OF assms(2)]] by (simp add: zip_read_def)

lemma zip_read_truncated:
  "zip_read L truncated z name = Inr d \<Longrightarrow> zip_read L False z name = Inr d"
  by (cases truncated) (auto simp: zip_read_def split: option.splits)

lemma copy_items_result:
  "copy_items L truncated zin tree xml_path items zout0 = (zout, None) \<Longrightarrow>
   \<exists>out. zout = zout0 @ out \<and>
         list_all2 (member_copied L truncated zin tree xml_path) items out"
proof (induction items arbitrary: zout0)
  case Nil
  then show ?case by simp
next
  case (Cons item items)
  show ?case
  proof (cases "filename item = xml_path")
    case True
    let ?d = "xml_declaration @ tostring L tree"
    obtain stored where c: "zip_compress L (compress_type item) ?d = Inr stored"
      using Cons.prems True
      by (cases "zip_compress L (compress_type item) ?d") (simp_all add: writestr_def)
    have r: "copy_items L truncated zin tree xml_path items
               (zout0 @ [(written_info L item ?d, stored)]) = (zout, None)"
      using Cons.prems True c by (simp add: writestr_def)
    obtain out where o: "zout = (zout0 @ [(written_info L item ?d, stored)]) @ out"
      "list_all2 (member_copied L truncated zin tree xml_path) items out"
      using Cons.IH[OF r] by blast
    have "member_copied L truncated zin tree xml_path item (written_info L item ?d, stored)"
      using True c by (simp add: member_copied_def)
    then show ?thesis using o by simp
  next
    case False
    obtain d where rd: "zip_read L truncated zin (filename item) = Inr d"
      using Cons.prems False
      by (cases "zip_read L truncated zin (filename item)") simp_all
    obtain stored where c: "zip_compress L (compress_type item) d = Inr stored"
      using Cons.prems False rd
      by (cases "zip_compress L (compress_type item) d") (simp_all add: writestr_def)
    have r: "copy_items L truncated zin tree xml_path items
               (zout0 @ [(written_info L item d, stored)]) = (zout, None)"
      using Cons.prems False rd c by (simp add: writestr_def)
    obtain out where o: "zout = (zout0 @ [(written_info L item d, stored)]) @ out"
      "list_all2 (member_copied L truncated zin tree xml_path) items out"
      using Cons.IH[OF r] by blast
    have "member_copied L truncated zin tree xml_path item (written_info L item d, stored)"
      using False rd c by (auto simp: member_copied_def)
    then show ?thesis using o by simp
  qed
qed

lemma create_section_hwpx_result:
  assumes "files w original_file = Some (Zip zin)"
    and "create_section_hwpx L w original_file tree xml_path output_file = (None, w')"
  shows "\<exists>zout. w' = w\<lparr>files := (files w)(output_file \<mapsto> Zip zout)\<rparr> \<and>
           open_w w output_file = None \<and>
           list_all2 (member_copied L (output_file = original_file) zin tree xml_path)
             (infolist zin) zout"
proof -
  have o: "open_w w output_file = None"
    using assms by (cases "open_w w output_file") (simp_all add: create_section_hwpx_def ZipFile_r_def)
  obtain zout r where c: "copy_items L (output_file = original_file) zin tree xml_path
                            (infolist zin) [] = (zout, r)"
    by (cases "copy_items L (output_file = original_file) zin tree xml_path (infolist zin) []")
  have "r = None" "w' = w\<lparr>files := (files w)(output_file \<mapsto> Zip zout)\<rparr>"
    using assms o c by (simp_all add: create_section_hwpx_def ZipFile_r_def)
  then show ?thesis using copy_items_result[of L _ zin tree xml_path "infolist zin" "[]" zout] c o
    by auto
qed

lemma member_copied_names:
  "list_all2 (member_copied L t zin tree xp) items zout \<Longrightarrow>
   map (\<lambda>m. filename (fst m)) zout = map filename items"
  by (induction items zout rule: list_all2_induct)
     (auto simp: member_copied_def written_info_def)

lemma written_flags_clear:
  "\<not> flag_set (written_flags zi) 5 \<and> \<not> flag_set (written_flags zi) 6 \<and>
   \<not> flag_set (written_flags zi) 0"
  by (simp add: written_flags_def flag_set_def)

lemma read_written:
  assumes "lossless L" and "zip_compress L (compress_type zi) d = Inr stored"
  shows "read_member L (written_info L zi d, stored) = Inr d"
proof -
  have "zip_decompress L (compress_type zi) stored = Inr d"
    using assms by (auto simp: zip_compress_def zip_decompress_def lossless_def split: if_splits)
  then show ?thesis
    using written_flags_clear[of zi] by (simp add: read_member_def written_info_def)
qed

lemma zip_stored_same:
  "compress_type zi = ZIP_STORED \<Longrightarrow> zip_compress L (compress_type zi) d = Inr s \<Longrightarrow>
   read_member L (zi, s0) = Inr d \<Longrightarrow> s = s0"
  by (auto simp: zip_compress_def read_member_def zip_decompress_def split: if_splits sum.splits)

lemma inflate_deflate: "inflate_stored (deflate_stored d) = Some d"
proof (induction d rule: deflate_stored.induct)
  case (1 d)
  show ?case
  proof (cases "length d \<le> 255")
    case True
    have c: "of_char (char_of (length d) :: char) = length d"
            "of_char (char_of (255 - length d) :: char) = 255 - length d"
      using True by simp_all
    show ?thesis
      using True c
      by (subst deflate_stored.simps) (simp add: stored_block_def Let_def del: deflate_stored.simps)
  next
    case False
    have l: "length (take 255 d) = 255" using False by simp
    have c: "of_char (char_of (255::nat) :: char) = (255::nat)" "of_char (char_of (0::nat) :: char) = (0::nat)"
      by simp_all
    have ih: "inflate_stored (deflate_stored (drop 255 d)) = Some (drop 255 d)"
      using False by (rule 1)
    show ?thesis
      using False l c ih
      by (subst deflate_stored.simps) (simp add: stored_block_def Let_def del: deflate_stored.simps)
  qed
qed

lemma lossless_ex_lib: "lossless ex_lib"
  by (simp add: lossless_def ex_lib_def inflate_deflate del: deflate_stored.simps)









text \<open>
  Claim C1, as amended.  Whenever \<open>create_section_hwpx\<close> returns without raising, for a
  reference archive with unique member names and with the lossless codecs of the
  library, the output file holds an archive with the same member names in the same
  order, and every member other than the content member has the reference member's name,
  time stamp, compression method, comment and extra field and reads as the same content,
  byte for byte.  The member is written anew from that content: its stored bytes are the
  content compressed again by the member's method (they are the reference's stored bytes
  for a member stored without compression), and its flag bits, its checksum field and
  external attributes that were 0 are set by \<open>writestr\<close>.
\<close>

theorem create_section_hwpx_other_members:
  assumes "files w original_file = Some (Zip zin)"
    and "create_section_hwpx L w original_file section_tree xml_path output_file = (None, w')"
    and "distinct (namelist zin)"
    and "lossless L"
  shows "files w' output_file = Some (Zip (archive_at w' output_file)) \<and>
         namelist (archive_at w' output_file) = namelist zin \<and>
         (\<forall>i < length zin. filename (fst (zin ! i)) \<noteq> xml_path \<longrightarrow>
            (\<exists>d. zip_read L False zin (filename (fst (zin ! i))) = Inr d \<and>
                 zip_read L False (archive_at w' output_file) (filename (fst (zin ! i))) = Inr d \<and>
                 fst (archive_at w' output_file ! i) = written_info L (fst (zin ! i)) d \<and>
                 zip_compress L (compress_type (fst (zin ! i))) d =
                   Inr (snd (archive_at w' output_file ! i))) \<and>
            filename (fst (archive_at w' output_file ! i)) = filename (fst (zin ! i)) \<and>
            date_time (fst (archive_at w' output_file ! i)) = date_time (fst (zin ! i)) \<and>
            compress_type (fst (archive_at w' output_file ! i)) =
              compress_type (fst (zin ! i)) \<and>
            comment (fst (archive_at w' output_file ! i)) = comment (fst (zin ! i)) \<and>
            extra (fst (archive_at w' output_file ! i)) = extra (fst (zin ! i)) \<and>
            (compress_type (fst (zin ! i)) = ZIP_STORED \<longrightarrow>
               snd (archive_at w' output_file ! i) = snd (zin ! i)))"
proof -
  let ?t = "output_file = original_file"
  obtain zout where z: "w' = w\<lparr>files := (files w)(output_file \<mapsto> Zip zout)\<rparr>"
    "list_all2 (member_copied L ?t zin section_tree xml_path) (infolist zin) zout"
    using create_section_hwpx_result[OF assms(1,2)] by blast
  have a: "archive_at w' output_file = zout" by (simp add: z(1) archive_at_def)
  have f: "files w' output_file = Some (Zip zout)" by (simp add: z(1))
  have names: "namelist zout = namelist zin"
    using member_copied_names[OF z(2)] by (simp add: namelist_def infolist_def)
  have len: "length zout = length zin"
    using list_all2_lengthD[OF z(2)] by (simp add: infolist_def)
  have dz: "distinct (namelist zout)" using names assms(3) by simp
  have each:
    "(\<exists>d. zip_read L False zin (filename (fst (zin ! i))) = Inr d \<and>
          zip_read L False zout (filename (fst (zin ! i))) = Inr d \<and>
          fst (zout ! i) = written_info L (fst (zin ! i)) d \<and>
          zip_compress L (compress_type (fst (zin ! i))) d = Inr (snd (zout ! i))) \<and>
     filename (fst (zout ! i)) = filename (fst (zin ! i)) \<and>
     date_time (fst (zout ! i)) = date_time (fst (zin ! i)) \<and>
     compress_type (fst (zout ! i)) = compress_type (fst (zin ! i)) \<and>
     comment (fst (zout ! i)) = comment (fst (zin ! i)) \<and>
     extra (fst (zout ! i)) = extra (fst (zin ! i)) \<and>
     (compress_type (fst (zin ! i)) = ZIP_STORED \<longrightarrow> snd (zout ! i) = snd (zin ! i))"
    if i: "i < length zin" and ne: "filename (fst (zin ! i)) \<noteq> xml_path" for i
  proof -
    let ?zi = "fst (zin ! i)"
    have "member_copied L ?t zin section_tree xml_path (infolist zin ! i) (zout ! i)"
      using list_all2_nthD[OF z(2), of i] i by (simp add: infolist_def)
    then have mc: "member_copied L ?t zin section_tree xml_path ?zi (zout ! i)"
      using i by (simp add: infolist_def)
    obtain d where d: "zip_read L ?t zin (filename ?zi) = Inr d"
      "fst (zout ! i) = written_info L ?zi d"
      "zip_compress L (compress_type ?zi) d = Inr (snd (zout ! i))"
      using mc ne by (auto simp: member_copied_def)
    have rin: "zip_read L False zin (filename ?zi) = Inr d"
      using d(1) by (rule zip_read_truncated)
    have rm: "read_member L (zin ! i) = Inr d"
      using rin zip_read_nth[OF assms(3) i, of L] by simp
    have fn: "filename (fst (zout ! i)) = filename ?zi"
      by (simp add: d(2) written_info_def)
    have m: "zout ! i = (written_info L ?zi d, snd (zout ! i))"
      using d(2) by (metis prod.collapse)
    have "read_member L (zout ! i) = Inr d"
      using read_written[OF assms(4) d(3)] m by simp
    then have rout: "zip_read L False zout (filename ?zi) = Inr d"
      using zip_read_nth[OF dz, of i L] i len fn by simp
    have st: "snd (zout ! i) = snd (zin ! i)" if "compress_type ?zi = ZIP_STORED"
      using zip_stored_same[OF that d(3), of "snd (zin ! i)"] rm by simp
    have fields: "date_time (fst (zout ! i)) = date_time ?zi"
      "compress_type (fst (zout ! i)) = compress_type ?zi"
      "comment (fst (zout ! i)) = comment ?zi" "extra (fst (zout ! i)) = extra ?zi"
      by (simp_all add: d(2) written_info_def)
    show ?thesis using rin rout d(2,3) fn fields st by blast
  qed
  show ?thesis unfolding a using f names each by blast
qed

theorem create_section_hwpx_other_members_witness:
  "files ex_world ''in/a.hwpx'' = Some (Zip ex_zin) \<and>
   fst (create_section_hwpx ex_lib ex_world ''in/a.hwpx'' ex_root2 ''Contents/section0.xml''
          ''out/section_1.hwpx'') = None \<and>
   distinct (namelist ex_zin) \<and>
   lossless ex_lib \<and>
   namelist (archive_at (snd (create_section_hwpx ex_lib ex_world ''in/a.hwpx'' ex_root2
       ''Contents/section0.xml'' ''out/section_1.hwpx'')) ''out/section_1.hwpx'') =
     [''mimetype'', ''Contents/section0.xml'', ''Preview/PrvText.txt''] \<and>
   snd (archive_at (snd (create_section_hwpx ex_lib ex_world ''in/a.hwpx'' ex_root2
       ''Contents/section0.xml'' ''out/section_1.hwpx'')) ''out/section_1.hwpx'' ! 0) =
     ''application/hwp+zip'' \<and>
   zip_read ex_lib False ex_zin ''Preview/PrvText.txt'' = Inr ''a'' \<and>
   zip_read ex_lib False (archive_at (snd (create_section_hwpx ex_lib ex_world ''in/a.hwpx''
       ex_root2 ''Contents/section0.xml'' ''out/section_1.hwpx'')) ''out/section_1.hwpx'')
     ''Preview/PrvText.txt'' = Inr ''a'' \<and>
   date_time (fst (archive_at (snd (create_section_hwpx ex_lib ex_world ''in/a.hwpx''
       ex_root2 ''Contents/section0.xml'' ''out/section_1.hwpx'')) ''out/section_1.hwpx'' ! 2)) =
     [2024, 1, 1, 0, 0, 0] \<and>
   compress_type (fst (archive_at (snd (create_section_hwpx ex_lib ex_world ''in/a.hwpx''
       ex_root2 ''Contents/section0.xml'' ''out/section_1.hwpx'')) ''out/section_1.hwpx'' ! 2)) =
     ZIP_DEFLATED"
proof -
  let ?xp = "''Contents/section0.xml''"
  let ?out = "''out/section_1.hwpx''"
  let ?run = "create_section_hwpx ex_lib ex_world ''in/a.hwpx'' ex_root2 ?xp ?out"
  let ?zout = "archive_at (snd ?run) ?out"
  have h1: "files ex_world ''in/a.hwpx'' = Some (Zip ex_zin)" by code_simp
  have r0: "fst ?run = None" by code_simp
  have h2: "?run = (None, snd ?run)" using r0 by (metis prod.collapse)
  have h3: "distinct (namelist ex_zin)" by code_simp
  have h4: "lossless ex_lib" by (rule lossless_ex_lib)
  have t: "namelist ?zout = namelist ex_zin"
    and each: "\<And>i. i < length ex_zin \<Longrightarrow> filename (fst (ex_zin ! i)) \<noteq> ?xp \<Longrightarrow>
       (\<exists>d. zip_read ex_lib False ex_zin (filename (fst (ex_zin ! i))) = Inr d \<and>
            zip_read ex_lib False ?zout (filename (fst (ex_zin ! i))) = Inr d) \<and>
       date_time (fst (?zout ! i)) = date_time (fst (ex_zin ! i)) \<and>
       compress_type (fst (?zout ! i)) = compress_type (fst (ex_zin ! i)) \<and>
       (compress_type (fst (ex_zin ! i)) = ZIP_STORED \<longrightarrow> snd (?zout ! i) = snd (ex_zin ! i))"
    using create_section_hwpx_other_members[OF h1 h2 h3 h4] by blast+
  have n: "namelist ex_zin = [''mimetype'', ''Contents/section0.xml'', ''Preview/PrvText.txt'']"
    by code_simp
  have i0: "0 < length ex_zin \<and> filename (fst (ex_zin ! 0)) \<noteq> ?xp \<and>
            compress_type (fst (ex_zin ! 0)) = ZIP_STORED \<and>
            snd (ex_zin ! 0) = ''application/hwp+zip''" by code_simp
  have s0: "snd (?zout ! 0) = ''application/hwp+zip''"
    using each[of 0] i0 by simp
  have i2: "2 < length ex_zin \<and> filename (fst (ex_zin ! 2)) \<noteq> ?xp \<and>
            filename (fst (ex_zin ! 2)) = ''Preview/PrvText.txt'' \<and>
            compress_type (fst (ex_zin ! 2)) = ZIP_DEFLATED \<and>
            date_time (fst (ex_zin ! 2)) = [2024, 1, 1, 0, 0, 0]" by code_simp
  have rd: "zip_read ex_lib False ex_zin ''Preview/PrvText.txt'' = Inr ''a''" by code_simp
  have s2: "zip_read ex_lib False ?zout ''Preview/PrvText.txt'' = Inr ''a''"
    using each[of 2] i2 rd by auto
  have d2: "date_time (fst (?zout ! 2)) = [2024, 1, 1, 0, 0, 0]"
    "compress_type (fst (?zout ! 2)) = ZIP_DEFLATED"
    using each[of 2] i2 by simp_all
  show ?thesis
    using h1 r0 h3 h4 s0 rd s2 d2 t n by (simp only: simp_thms)
qed

text \<open>
  The claim as stated fails: the rewrite of the example archive succeeds, its third member
  is compressed, the stored bytes of the reference are not the bytes that the codec
  writes for the member's content, and the copy has other stored bytes, other flag bits
  and other external attributes than the reference.
\<close>

theorem create_section_hwpx_recompresses:
  "files ex_world ''in/a.hwpx'' = Some (Zip ex_zin) \<and>
   ''out'' \<in> dirs ex_world \<and>
   fst (create_section_hwpx ex_lib ex_world ''in/a.hwpx'' ex_root2 ''Contents/section0.xml''
          ''out/section_1.hwpx'') = None \<and>
   filename (fst (ex_zin ! 2)) = ''Preview/PrvText.txt'' \<and>
   filename (fst (archive_at (snd (create_section_hwpx ex_lib ex_world ''in/a.hwpx'' ex_root2
       ''Contents/section0.xml'' ''out/section_1.hwpx'')) ''out/section_1.hwpx'' ! 2)) =
     ''Preview/PrvText.txt'' \<and>
   snd (ex_zin ! 2) =
     [CHR 0x00, CHR 0x00, CHR 0x00, CHR 0xFF, CHR 0xFF,
      CHR 0x01, CHR 0x01, CHR 0x00, CHR 0xFE, CHR 0xFF, CHR ''a''] \<and>
   snd (archive_at (snd (create_section_hwpx ex_lib ex_world ''in/a.hwpx'' ex_root2
       ''Contents/section0.xml'' ''out/section_1.hwpx'')) ''out/section_1.hwpx'' ! 2) =
     [CHR 0x01, CHR 0x01, CHR 0x00, CHR 0xFE, CHR 0xFF, CHR ''a''] \<and>
   snd (archive_at (snd (create_section_hwpx ex_lib ex_world ''in/a.hwpx'' ex_root2
       ''Contents/section0.xml'' ''out/section_1.hwpx'')) ''out/section_1.hwpx'' ! 2) \<noteq>
     snd (ex_zin ! 2) \<and>
   external_attr (fst (ex_zin ! 2)) = 0 \<and>
   external_attr (fst (archive_at (snd (create_section_hwpx ex_lib ex_world ''in/a.hwpx''
       ex_root2 ''Contents/section0.xml'' ''out/section_1.hwpx'')) ''out/section_1.hwpx'' ! 2)) =
     25165824 \<and>
   flag_bits (fst (ex_zin ! 2)) = 2048 \<and>
   flag_bits (fst (archive_at (snd (create_section_hwpx ex_lib ex_world ''in/a.hwpx''
       ex_root2 ''Contents/section0.xml'' ''out/section_1.hwpx'')) ''out/section_1.hwpx'' ! 2)) = 0"
  by code_simp




end
